theory Spec2Isabelle
  imports Main "HOL-Library.Sublist"
begin

section \<open>The frame log to video script\<close>

text \<open>
  The repository's script \<^verbatim>\<open>scripts/make_video.py\<close> reads the frame log
  \<^verbatim>\<open>frames.json\<close> of a folder line by line, writes the concat manifest
  \<^verbatim>\<open>concatfile\<close> for ffmpeg and runs ffmpeg on it. The model below follows the
  script statement by statement. What Python and its libraries do is written out where
  the script depends on it (subscription, subtraction, string formatting, iterating a
  text file); \<^verbatim>\<open>json.loads\<close>, the \<^verbatim>\<open>repr\<close> of containers and the child process
  are parameters.
\<close>

subsection \<open>Python values\<close>

text \<open>
  The objects \<^verbatim>\<open>json.loads\<close> returns. A JSON object becomes a dict, kept as an
  association list that is read with \<open>map_of\<close>. JSON numbers are integers here, as the
  step counters of a frame log are; Python's floats have no counterpart in this model.
  Characters are 8-bit, so a string stands for a Python string of code points below 256.
\<close>

datatype pyval =
    PNone
  | PBool bool
  | PInt int
  | PStr string
  | PList "pyval list"
  | PDict "(string \<times> pyval) list"

datatype error =
    FileNotFoundError
  | JSONDecodeError
  | KeyError string
  | TypeError
  | OSError
  | AssertionError

abbreviation nl :: char where "nl \<equiv> CHR 0x0A"
abbreviation sq :: char where "sq \<equiv> CHR 0x27"

text \<open>\<^verbatim>\<open>frame['k']\<close>: a dict raises KeyError on a missing key; no other value of
  the datatype can be subscripted by a string.\<close>

fun getitem :: "pyval \<Rightarrow> string \<Rightarrow> error + pyval" where
  "getitem (PDict kvs) k = (case map_of kvs k of None \<Rightarrow> Inl (KeyError k) | Some v \<Rightarrow> Inr v)"
| "getitem v k = Inl TypeError"

text \<open>\<^verbatim>\<open>a - b\<close>: defined on integers, and on booleans as the integers 0 and 1;
  every other pair of operands raises TypeError.\<close>

fun as_int :: "pyval \<Rightarrow> int option" where
  "as_int (PInt i) = Some i"
| "as_int (PBool b) = Some (if b then 1 else 0)"
| "as_int v = None"

definition py_sub :: "pyval \<Rightarrow> pyval \<Rightarrow> error + pyval" where
  "py_sub a b =
     (case as_int a of
        None \<Rightarrow> Inl TypeError
      | Some x \<Rightarrow> (case as_int b of None \<Rightarrow> Inl TypeError | Some y \<Rightarrow> Inr (PInt (x - y))))"

text \<open>The decimal text of an integer, as \<^verbatim>\<open>str\<close> gives it.\<close>

fun str_nat :: "nat \<Rightarrow> string" where
  "str_nat n =
     (if n < 10 then [''0123456789'' ! n]
      else str_nat (n div 10) @ [''0123456789'' ! (n mod 10)])"

declare str_nat.simps [simp del]

definition str_int :: "int \<Rightarrow> string" where
  "str_int i = (if i < 0 then CHR ''-'' # str_nat (nat (- i)) else str_nat (nat i))"

subsection \<open>Library functions taken as parameters\<close>

type_synonym path = "string list"

text \<open>A \<^verbatim>\<open>pathlib.Path\<close> is the list of its parts; \<^verbatim>\<open>joinpath\<close> with a relative
  one-part name appends that part.\<close>

definition joinpath :: "path \<Rightarrow> string \<Rightarrow> path" where
  "joinpath folder name = folder @ [name]"

text \<open>An argument of the child process: a literal string, or the file system string of
  a path (\<^verbatim>\<open>str(concatpath)\<close> and the path object passed for the output file).\<close>

datatype arg = Lit string | PathArg path

text \<open>
  \<^item> \<open>loads\<close> is \<^verbatim>\<open>json.loads\<close>: \<open>None\<close> when it raises JSONDecodeError;
  \<^item> \<open>repr\<close> is the text Python prints for a list or a dict;
  \<^item> \<open>call\<close> is \<^verbatim>\<open>subprocess.call\<close>: given the argument list and the files at that
    moment, the exit status of the child, or the error raised when the child cannot be
    started. What the child writes is not part of the model.
\<close>

record pylib =
  loads :: "string \<Rightarrow> pyval option"
  repr :: "pyval \<Rightarrow> string"
  call :: "arg list \<Rightarrow> (path \<rightharpoonup> string) \<Rightarrow> error + int"

text \<open>A replacement field \<^verbatim>\<open>{v}\<close> of an f-string.\<close>

fun format_value :: "pylib \<Rightarrow> pyval \<Rightarrow> string" where
  "format_value lib (PStr s) = s"
| "format_value lib (PInt i) = str_int i"
| "format_value lib (PBool b) = (if b then ''True'' else ''False'')"
| "format_value lib PNone = ''None''"
| "format_value lib v = repr lib v"

subsection \<open>Reading a text file line by line\<close>

text \<open>\<^verbatim>\<open>for line in f\<close>: every line keeps its line feed; the last line has none when
  the file does not end in one. The file's text is taken after newline translation.\<close>

fun lines_of :: "string \<Rightarrow> string list" where
  "lines_of [] = []"
| "lines_of (c # cs) =
     (if c = nl then [c] # lines_of cs
      else (case lines_of cs of [] \<Rightarrow> [c] # [] | l # ls \<Rightarrow> (c # l) # ls))"

text \<open>\<^verbatim>\<open>str.isspace\<close> on code points below 256, and \<^verbatim>\<open>str.strip()\<close>.\<close>

definition is_space :: "char \<Rightarrow> bool" where
  "is_space c \<longleftrightarrow>
     of_char c \<in> {9, 10, 11, 12, 13, 28, 29, 30, 31, 32, 133, 160 :: nat}"

definition strip :: "string \<Rightarrow> string" where
  "strip s = rev (dropWhile is_space (rev (dropWhile is_space s)))"

subsection \<open>The loop of \<^verbatim>\<open>main\<close>\<close>

text \<open>The local variables of \<^verbatim>\<open>main\<close> that the loop updates, and the text written to
  the manifest \<^verbatim>\<open>of\<close> so far.\<close>

record loop_state =
  old_step :: pyval
  first :: bool
  last_line :: "string option"
  of_text :: string

text \<open>
  One iteration (lines 14 to 21 of the script). The statements run in the source's
  order, and each one that raises ends the iteration with what was written before it:
  \<^verbatim>\<open>
  frame = loads(line.strip())
  if not first:
      of.write(f"duration {frame['step'] - old_step}" + "\n")
  file_line = f"file '{frame['path']}'" + "\n"
  of.write(file_line)
  old_step = frame["step"]
  first = False
  last = file_line
  \<close>
\<close>

definition write_duration :: "pylib \<Rightarrow> pyval \<Rightarrow> loop_state \<Rightarrow> error + loop_state" where
  "write_duration lib frame st =
     (if first st then Inr st
      else (case getitem frame ''step'' of
              Inl e \<Rightarrow> Inl e
            | Inr s \<Rightarrow>
                (case py_sub s (old_step st) of
                   Inl e \<Rightarrow> Inl e
                 | Inr d \<Rightarrow>
                     Inr (st\<lparr>of_text := of_text st @ ''duration '' @ format_value lib d @ [nl]\<rparr>))))"

definition loop_body :: "pylib \<Rightarrow> string \<Rightarrow> loop_state \<Rightarrow> error option \<times> loop_state" where
  "loop_body lib line st =
     (case loads lib (strip line) of
        None \<Rightarrow> (Some JSONDecodeError, st)
      | Some frame \<Rightarrow>
          (case write_duration lib frame st of
             Inl e \<Rightarrow> (Some e, st)
           | Inr st1 \<Rightarrow>
               (case getitem frame ''path'' of
                  Inl e \<Rightarrow> (Some e, st1)
                | Inr p \<Rightarrow>
                    (let file_line = ''file '' @ [sq] @ format_value lib p @ [sq] @ [nl];
                         st2 = st1\<lparr>of_text := of_text st1 @ file_line\<rparr>
                     in (case getitem frame ''step'' of
                           Inl e \<Rightarrow> (Some e, st2)
                         | Inr s \<Rightarrow>
                             (None, st2\<lparr>old_step := s, first := False,
                                         last_line := Some file_line\<rparr>))))))"

text \<open>\<^verbatim>\<open>for line in f\<close>: the first iteration that raises ends the loop.\<close>

fun for_lines :: "pylib \<Rightarrow> string list \<Rightarrow> loop_state \<Rightarrow> error option \<times> loop_state" where
  "for_lines lib [] st = (None, st)"
| "for_lines lib (line # rest) st =
     (case loop_body lib line st of
        (Some e, st') \<Rightarrow> (Some e, st')
      | (None, st') \<Rightarrow> for_lines lib rest st')"

text \<open>
  Lines 9 to 22: the initial values, the loop, and the trailing write
  \<^verbatim>\<open>of.write("duration 10\n" + last)\<close>, whose concatenation raises TypeError while
  \<^verbatim>\<open>last\<close> is still \<^verbatim>\<open>None\<close>. The result is the error raised, if any, and the text the
  manifest holds when it is closed. \<open>f\<close> is the text of the frame log.
\<close>

definition write_concatfile :: "pylib \<Rightarrow> string \<Rightarrow> error option \<times> string" where
  "write_concatfile lib f =
     (case for_lines lib (lines_of f)
             \<lparr>old_step = PInt 0, first = True, last_line = None, of_text = []\<rparr> of
        (Some e, st) \<Rightarrow> (Some e, of_text st)
      | (None, st) \<Rightarrow>
          (case last_line st of
             None \<Rightarrow> (Some TypeError, of_text st)
           | Some l \<Rightarrow> (None, of_text st @ ''duration 10'' @ [nl] @ l)))"

subsection \<open>\<^verbatim>\<open>main\<close> and the script's entry point\<close>

text \<open>The files by path, and the argument lists the child process was started with.\<close>

record world =
  files :: "path \<rightharpoonup> string"
  calls :: "arg list list"

definition cmd :: "path \<Rightarrow> arg list" where
  "cmd folder =
     [Lit ''ffmpeg'',
      Lit ''-f'', Lit ''concat'', Lit ''-i'', PathArg (joinpath folder ''concatfile''),
      Lit ''-s'', Lit ''1200x600'', Lit ''-sws_flags'', Lit ''neighbor'',
      Lit ''-vsync'', Lit ''vfr'',
      Lit ''-c:v'', Lit ''libx264'',
      Lit ''-vf'', Lit ''settb=AVTB,setpts=N/60/TB,fps=60'',
      Lit ''-y'', PathArg (joinpath folder ''out.mkv'')]"

text \<open>
  \<^verbatim>\<open>main(folder)\<close>. Opening a frame log that does not exist raises
  FileNotFoundError before the manifest is opened. Opening the manifest with
  \<^verbatim>\<open>"w+"\<close> creates it empty or empties it; it keeps what was written when an
  exception leaves the \<^verbatim>\<open>with\<close> block. Only then is the child process started, and
  its exit status asserted to be 0.
\<close>

definition main :: "pylib \<Rightarrow> path \<Rightarrow> world \<Rightarrow> error option \<times> world" where
  "main lib folder w =
     (let concatpath = joinpath folder ''concatfile'' in
      case files w (joinpath folder ''frames.json'') of
        None \<Rightarrow> (Some FileNotFoundError, w)
      | Some f \<Rightarrow>
          (case write_concatfile lib f of
             (Some e, text) \<Rightarrow> (Some e, w\<lparr>files := (files w)(concatpath \<mapsto> text)\<rparr>)
           | (None, text) \<Rightarrow>
               (let w1 = w\<lparr>files := (files w)(concatpath \<mapsto> text)\<rparr>;
                    w2 = w1\<lparr>calls := calls w1 @ [cmd folder]\<rparr>
                in (case call lib (cmd folder) (files w1) of
                      Inl e \<Rightarrow> (Some e, w2)
                    | Inr res \<Rightarrow> (if res = 0 then (None, w2) else (Some AssertionError, w2))))))"

text \<open>
  The entry point, \<^verbatim>\<open>if __name__ == '__main__': main(Path("../output"))\<close>. The script
  never reads its command line; \<open>argv\<close> is what it was started with.
\<close>

definition script :: "string list \<Rightarrow> pylib \<Rightarrow> world \<Rightarrow> error option \<times> world" where
  "script argv lib w = main lib [''..'', ''output''] w"

subsection \<open>Frame records and directives, as the specification names them\<close>

text \<open>
  A frame record is a path and a step. \<open>frame_of\<close> reads one from a parsed line: a
  JSON object whose \<^verbatim>\<open>path\<close> is a string and whose \<^verbatim>\<open>step\<close> is an integer; other
  fields and the order of the fields do not matter. \<open>read_frames\<close> does so for every
  line of a frame log (\<open>None\<close> for a line that does not hold a frame record).
\<close>

type_synonym frame_record = "string \<times> int"

definition frame_of :: "pyval \<Rightarrow> frame_record option" where
  "frame_of v =
     (case v of
        PDict kvs \<Rightarrow>
          (case map_of kvs ''path'' of
             Some (PStr p) \<Rightarrow> (case map_of kvs ''step'' of Some (PInt s) \<Rightarrow> Some (p, s) | _ \<Rightarrow> None)
           | _ \<Rightarrow> None)
      | _ \<Rightarrow> None)"

definition read_frames :: "pylib \<Rightarrow> string \<Rightarrow> frame_record option list" where
  "read_frames lib f =
     map (\<lambda>line. case loads lib (strip line) of None \<Rightarrow> None | Some v \<Rightarrow> frame_of v) (lines_of f)"

text \<open>The two kinds of manifest line and their text.\<close>

datatype directive = File string | Duration int

fun render :: "directive \<Rightarrow> string" where
  "render (File p) = ''file '' @ [sq] @ p @ [sq] @ [nl]"
| "render (Duration d) = ''duration '' @ str_int d @ [nl]"


text \<open>
  The directives of the main pass, from the specification: a file reference for every
  frame, and between the file references of two consecutive frames a duration, the
  difference of their steps. \<open>following prev\<close> lists what comes after the file
  reference of a frame whose step is \<open>prev\<close>. The manifest expected for a log is the main
  pass, then a duration of 10 and the last frame's file reference once more.
\<close>

fun following :: "int \<Rightarrow> frame_record list \<Rightarrow> directive list" where
  "following prev [] = []"
| "following prev ((p, s) # rest) = Duration (s - prev) # File p # following s rest"

fun main_pass :: "frame_record list \<Rightarrow> directive list" where
  "main_pass [] = []"
| "main_pass ((p, s) # rest) = File p # following s rest"


text \<open>The manifest text starts with this when it starts with a file reference.\<close>

definition file_start :: string where
  "file_start = ''file '' @ [sq]"

text \<open>The invariant of the loop: before the first frame is done nothing is written;
  after it the text starts with a file reference.\<close>

definition loop_inv :: "loop_state \<Rightarrow> bool" where
  "loop_inv st \<longleftrightarrow>
     (if first st then of_text st = [] \<and> last_line st = None
      else prefix file_start (of_text st))"

text \<open>
  A line the loop cannot process: it is not JSON, or the value it holds is not an
  object, or the object lacks \<^verbatim>\<open>path\<close> or \<^verbatim>\<open>step\<close>. The errors such a log ends
  with are the ones the loop can raise.
\<close>

definition bad_line :: "pylib \<Rightarrow> string \<Rightarrow> bool" where
  "bad_line lib line =
     (case loads lib (strip line) of
        None \<Rightarrow> True
      | Some v \<Rightarrow>
          (case v of
             PDict kvs \<Rightarrow> map_of kvs ''path'' = None \<or> map_of kvs ''step'' = None
           | _ \<Rightarrow> True))"

definition record_errors :: "error set" where
  "record_errors = {JSONDecodeError, KeyError ''path'', KeyError ''step'', TypeError}"

text \<open>Two lines hold the same frame when both parse to objects with the same
  \<^verbatim>\<open>path\<close> and the same \<^verbatim>\<open>step\<close> entries.\<close>

definition frame_fields :: "pylib \<Rightarrow> string \<Rightarrow> (pyval option \<times> pyval option) option" where
  "frame_fields lib line =
     (case loads lib (strip line) of
        None \<Rightarrow> None
      | Some v \<Rightarrow>
          (case v of
             PDict kvs \<Rightarrow> Some (map_of kvs ''path'', map_of kvs ''step'')
           | _ \<Rightarrow> None))"

definition same_frame :: "pylib \<Rightarrow> string \<Rightarrow> string \<Rightarrow> bool" where
  "same_frame lib line1 line2 \<longleftrightarrow>
     frame_fields lib line1 \<noteq> None \<and> frame_fields lib line1 = frame_fields lib line2"

subsection \<open>Example runs\<close>

text \<open>
  A fragment of \<^verbatim>\<open>json.loads\<close>, on the lines of the example logs below, and two
  instances of the library: one whose ffmpeg exits with 0, one whose ffmpeg exits with 1.
\<close>

definition example_loads :: "string \<Rightarrow> pyval option" where
  \<open>example_loads s =
     (if s = ''{"path": "f0.png", "step": 0}''
        then Some (PDict [(''path'', PStr ''f0.png''), (''step'', PInt 0)])
      else if s = ''{"step": 5, "path": "f1.png", "pc": 512}''
        then Some (PDict [(''step'', PInt 5), (''path'', PStr ''f1.png''), (''pc'', PInt 512)])
      else if s = ''{"path":"f1.png","step":5}''
        then Some (PDict [(''path'', PStr ''f1.png''), (''step'', PInt 5)])
      else if s = ''{"path": "f2.png", "step": 12}''
        then Some (PDict [(''path'', PStr ''f2.png''), (''step'', PInt 12)])
      else if s = ''{"path": "f3.png"}''
        then Some (PDict [(''path'', PStr ''f3.png'')])
      else None)\<close>

definition example_lib :: pylib where
  "example_lib = \<lparr>loads = example_loads, repr = (\<lambda>v. ''[]''), call = (\<lambda>c fs. Inr 0)\<rparr>"

definition failing_lib :: pylib where
  "failing_lib = \<lparr>loads = example_loads, repr = (\<lambda>v. ''[]''), call = (\<lambda>c fs. Inr 1)\<rparr>"

definition example_frames :: "frame_record list" where
  "example_frames = [(''f0.png'', 0), (''f1.png'', 5), (''f2.png'', 12)]"

definition example_log :: string where
  \<open>example_log =
     ''{"path": "f0.png", "step": 0}'' @ [nl] @
     ''{"step": 5, "path": "f1.png", "pc": 512}'' @ [nl] @
     ''{"path": "f2.png", "step": 12}'' @ [nl]\<close>

definition compact_log :: string where
  \<open>compact_log =
     ''{"path": "f0.png", "step": 0}'' @ [nl] @
     ''{"path":"f1.png","step":5}'' @ [nl] @
     ''{"path": "f2.png", "step": 12}''\<close>

definition truncated_log :: string where
  \<open>truncated_log =
     ''{"path": "f0.png", "step": 0}'' @ [nl] @
     ''{"path": "f3.png"}'' @ [nl] @
     ''{"path": "f2.png", "step": 12}'' @ [nl]\<close>

text \<open>A file system that holds one frame log, in the folder \<^verbatim>\<open>run\<close>.\<close>

definition world_with :: "string \<Rightarrow> world" where
  "world_with f = \<lparr>files = Map.empty([''run'', ''frames.json''] \<mapsto> f), calls = []\<rparr>"

section \<open>Properties of the loop\<close>

subsection \<open>A log of frame records\<close>

lemma frame_of_SomeD:
  assumes "frame_of v = Some (p, s)"
  shows "getitem v ''path'' = Inr (PStr p)" and "getitem v ''step'' = Inr (PInt s)"
  using assms
  by (auto simp: frame_of_def split: pyval.splits option.splits)

lemma loop_body_first:
  assumes "loads lib (strip line) = Some v" and "frame_of v = Some (p, s)" and "first st"
  shows "loop_body lib line st =
           (None, st\<lparr>of_text := of_text st @ render (File p), old_step := PInt s,
                     first := False, last_line := Some (render (File p))\<rparr>)"
  using assms frame_of_SomeD [OF assms(2)]
  by (simp add: loop_body_def write_duration_def Let_def)

lemma loop_body_later:
  assumes "loads lib (strip line) = Some v" and "frame_of v = Some (p, s)"
    and "\<not> first st" and "old_step st = PInt s0"
  shows "loop_body lib line st =
           (None, st\<lparr>of_text := of_text st @ render (Duration (s - s0)) @ render (File p),
                     old_step := PInt s, first := False, last_line := Some (render (File p))\<rparr>)"
  using assms frame_of_SomeD [OF assms(2)]
  by (simp add: loop_body_def write_duration_def Let_def py_sub_def)

lemma for_lines_following:
  assumes "map (\<lambda>line. case loads lib (strip line) of None \<Rightarrow> None | Some v \<Rightarrow> frame_of v) ls
             = map Some frs"
    and "\<not> first st" and "old_step st = PInt s0"
  shows "fst (for_lines lib ls st) = None
       \<and> of_text (snd (for_lines lib ls st)) = of_text st @ concat (map render (following s0 frs))
       \<and> last_line (snd (for_lines lib ls st))
           = (if frs = [] then last_line st else Some (render (File (fst (last frs)))))"
  using assms
proof (induction ls arbitrary: frs st s0)
  case Nil
  then show ?case by simp
next
  case (Cons line rest)
  then obtain fr frs' where frs: "frs = fr # frs'" by (cases frs) auto
  obtain p s where fr: "fr = (p, s)" by (cases fr)
  from Cons.prems(1) frs fr obtain v where v: "loads lib (strip line) = Some v" "frame_of v = Some (p, s)"
    by (auto split: option.splits)
  from Cons.prems(1) frs have rest:
    "map (\<lambda>line. case loads lib (strip line) of None \<Rightarrow> None | Some v \<Rightarrow> frame_of v) rest = map Some frs'"
    by simp
  let ?st = "st\<lparr>of_text := of_text st @ render (Duration (s - s0)) @ render (File p),
                     old_step := PInt s, first := False, last_line := Some (render (File p))\<rparr>"
  have body: "loop_body lib line st = (None, ?st)"
    using loop_body_later [OF v Cons.prems(2) Cons.prems(3)] .
  have "\<not> first ?st" "old_step ?st = PInt s" by simp_all
  from Cons.IH [OF rest this] body frs fr show ?case
    by simp
qed

lemma str_int_10: "str_int 10 = ''10''"
  by (simp add: str_int_def str_nat.simps)

lemma write_concatfile_frames:
  assumes "read_frames lib f = map Some frs" and "frs \<noteq> []"
  shows "write_concatfile lib f =
           (None, concat (map render (main_pass frs @ [Duration 10, File (fst (last frs))])))"
proof -
  let ?init = "\<lparr>old_step = PInt 0, first = True, last_line = None, of_text = []\<rparr>"
  from assms obtain fr frs' where frs: "frs = fr # frs'" by (cases frs) auto
  obtain p s where fr: "fr = (p, s)" by (cases fr)
  from assms(1) frs obtain line rest where ls: "lines_of f = line # rest"
    by (cases "lines_of f") (auto simp: read_frames_def)
  from assms(1) frs fr ls obtain v where v: "loads lib (strip line) = Some v" "frame_of v = Some (p, s)"
    by (auto simp: read_frames_def split: option.splits)
  from assms(1) frs ls have rest:
    "map (\<lambda>line. case loads lib (strip line) of None \<Rightarrow> None | Some v \<Rightarrow> frame_of v) rest = map Some frs'"
    by (simp add: read_frames_def)
  let ?st = "?init\<lparr>of_text := of_text ?init @ render (File p), old_step := PInt s,
                     first := False, last_line := Some (render (File p))\<rparr>"
  have body: "loop_body lib line ?init = (None, ?st)"
    by (rule loop_body_first [OF v]) simp
  have "\<not> first ?st" "old_step ?st = PInt s" by simp_all
  from for_lines_following [OF rest this]
  have r: "fst (for_lines lib rest ?st) = None"
    "of_text (snd (for_lines lib rest ?st)) = render (File p) @ concat (map render (following s frs'))"
    "last_line (snd (for_lines lib rest ?st)) = Some (render (File (fst (last frs))))"
    by (simp_all add: frs fr)
  obtain r' st' where eq: "for_lines lib rest ?st = (r', st')" by (cases "for_lines lib rest ?st")
  with r have "r' = None" "of_text st' = render (File p) @ concat (map render (following s frs'))"
    "last_line st' = Some (render (File (fst (last frs))))" by simp_all
  then show ?thesis
    using ls body eq by (simp add: write_concatfile_def frs fr str_int_10)
qed

subsection \<open>What \<^verbatim>\<open>main\<close> leaves in the file system\<close>

lemma main_manifest:
  assumes "files w (joinpath folder ''frames.json'') = Some f"
  shows "files (snd (main lib folder w)) (joinpath folder ''concatfile'')
           = Some (snd (write_concatfile lib f))"
  using assms
  by (simp add: main_def Let_def split: prod.splits option.splits sum.splits)

lemma main_failed_manifest:
  assumes "files w (joinpath folder ''frames.json'') = Some f"
    and "fst (write_concatfile lib f) = Some e"
  shows "main lib folder w =
           (Some e, w\<lparr>files := (files w)(joinpath folder ''concatfile'' \<mapsto> snd (write_concatfile lib f))\<rparr>)"
  using assms
  by (cases "write_concatfile lib f") (simp add: main_def Let_def)

lemma main_encoder:
  assumes "files w (joinpath folder ''frames.json'') = Some f"
    and "fst (write_concatfile lib f) = None"
    and "call lib (cmd folder)
           ((files w)(joinpath folder ''concatfile'' \<mapsto> snd (write_concatfile lib f))) = Inr res"
  shows "main lib folder w =
           (if res = 0 then None else Some AssertionError,
            \<lparr>files = (files w)(joinpath folder ''concatfile'' \<mapsto> snd (write_concatfile lib f)),
             calls = calls w @ [cmd folder]\<rparr>)"
  using assms
  by (cases "write_concatfile lib f") (simp add: main_def Let_def)

subsection \<open>The main pass\<close>





lemma main_pass_last:
  assumes "frs \<noteq> []"
  shows "main_pass frs \<noteq> [] \<and> last (main_pass frs) = File (fst (last frs))"
proof -
  have f: "last (d # following prev frs) = (if frs = [] then d else File (fst (last frs)))"
    for d prev frs
    by (induction prev frs arbitrary: d rule: following.induct) simp_all
  from assms obtain p s rest where "frs = (p, s) # rest" by (cases frs) auto
  then show ?thesis using f [of "File p" s rest] by simp
qed

subsection \<open>The first write\<close>

lemma file_line_start: "prefix file_start (''file '' @ [sq] @ x)"
  by (simp add: file_start_def)

lemma write_duration_inv:
  assumes "loop_inv st" and "write_duration lib frame st = Inr st1"
  shows "loop_inv st1 \<and> first st1 = first st"
  using assms
  by (auto simp: write_duration_def loop_inv_def split: if_splits sum.splits)

lemma loop_body_inv:
  assumes "loop_inv st" and "loop_body lib line st = (r, st')"
  shows "(of_text st' = [] \<or> prefix file_start (of_text st')) \<and> (r = None \<longrightarrow> loop_inv st')"
proof (cases "loads lib (strip line)")
  case None
  with assms show ?thesis
    by (auto simp: loop_body_def loop_inv_def split: if_splits)
next
  case (Some frame)
  show ?thesis
  proof (cases "write_duration lib frame st")
    case (Inl e)
    with Some assms show ?thesis
      by (auto simp: loop_body_def loop_inv_def split: if_splits)
  next
    case (Inr st1)
    from write_duration_inv [OF assms(1) Inr]
    have st1: "of_text st1 = [] \<or> prefix file_start (of_text st1)"
      by (auto simp: loop_inv_def split: if_splits)
    have ext: "prefix file_start (of_text st1 @ ''file '' @ [sq] @ x)" for x
    proof (cases "of_text st1 = []")
      case True
      then show ?thesis by (simp add: file_start_def)
    next
      case False
      with st1 show ?thesis by simp
    qed
    from Some Inr assms(2) st1 ext show ?thesis
      by (auto simp: loop_body_def loop_inv_def Let_def simp del: append.simps
               split: sum.splits)
  qed
qed

lemma for_lines_inv:
  assumes "loop_inv st" and "for_lines lib ls st = (r, st')"
  shows "(of_text st' = [] \<or> prefix file_start (of_text st')) \<and> (r = None \<longrightarrow> loop_inv st')"
  using assms
proof (induction ls arbitrary: st)
  case Nil
  then show ?case by (auto simp: loop_inv_def split: if_splits)
next
  case (Cons line rest)
  obtain r1 st1 where b: "loop_body lib line st = (r1, st1)" by (cases "loop_body lib line st")
  show ?case
  proof (cases r1)
    case None
    with loop_body_inv [OF Cons.prems(1) b] have "loop_inv st1" by simp
    moreover from Cons.prems(2) b None have "for_lines lib rest st1 = (r, st')" by simp
    ultimately show ?thesis by (rule Cons.IH)
  next
    case (Some e)
    with Cons.prems(2) b have "r = Some e" "st' = st1" by simp_all
    with loop_body_inv [OF Cons.prems(1) b] show ?thesis by simp
  qed
qed

lemma write_concatfile_starts:
  "snd (write_concatfile lib f) = [] \<or> prefix file_start (snd (write_concatfile lib f))"
proof -
  let ?init = "\<lparr>old_step = PInt 0, first = True, last_line = None, of_text = []\<rparr>"
  obtain r st where eq: "for_lines lib (lines_of f) ?init = (r, st)"
    by (cases "for_lines lib (lines_of f) ?init")
  have "loop_inv ?init" by (simp add: loop_inv_def)
  from for_lines_inv [OF this eq]
  have g: "of_text st = [] \<or> prefix file_start (of_text st)" and i: "r = None \<longrightarrow> loop_inv st"
    by simp_all
  show ?thesis
  proof (cases r)
    case (Some e)
    with eq g show ?thesis by (simp add: write_concatfile_def)
  next
    case None
    show ?thesis
    proof (cases "last_line st")
      case n: None
      with None eq g show ?thesis by (simp add: write_concatfile_def)
    next
      case (Some l)
      with None i have "prefix file_start (of_text st)"
        by (auto simp: loop_inv_def split: if_splits)
      with None Some eq show ?thesis by (simp add: write_concatfile_def)
    qed
  qed
qed

subsection \<open>Lines that cannot be processed\<close>

lemma getitem_errors: "getitem v k = Inl e \<Longrightarrow> e = KeyError k \<or> e = TypeError"
  by (cases v) (auto split: option.splits)

lemma write_duration_errors:
  "write_duration lib frame st = Inl e \<Longrightarrow> e = KeyError ''step'' \<or> e = TypeError"
  by (auto simp: write_duration_def py_sub_def split: if_splits sum.splits option.splits
           dest: getitem_errors)

lemma loop_body_errors:
  assumes "loop_body lib line st = (Some e, st')"
  shows "e \<in> record_errors"
  using assms
  by (auto simp: loop_body_def record_errors_def Let_def split: option.splits sum.splits
           dest: getitem_errors write_duration_errors)

lemma loop_body_bad:
  assumes "bad_line lib line"
  shows "fst (loop_body lib line st) \<noteq> None"
proof (cases "loads lib (strip line)")
  case None
  then show ?thesis by (simp add: loop_body_def)
next
  case (Some v)
  have "getitem v ''path'' = Inl TypeError \<or> getitem v ''path'' = Inl (KeyError ''path'')
      \<or> getitem v ''step'' = Inl TypeError \<or> getitem v ''step'' = Inl (KeyError ''step'')"
    using assms Some by (cases v) (auto simp: bad_line_def)
  then show ?thesis
    using Some
    by (auto simp: loop_body_def Let_def split: sum.splits)
qed

lemma for_lines_bad:
  assumes "line \<in> set ls" and "bad_line lib line"
  shows "\<exists>e \<in> record_errors. fst (for_lines lib ls st) = Some e"
  using assms(1)
proof (induction ls arbitrary: st)
  case Nil
  then show ?case by simp
next
  case (Cons l rest)
  obtain r1 st1 where b: "loop_body lib l st = (r1, st1)" by (cases "loop_body lib l st")
  show ?case
  proof (cases r1)
    case (Some e)
    with b loop_body_errors [of lib l st e st1] show ?thesis by simp
  next
    case None
    with b loop_body_bad [of lib l st] assms(2) have "l \<noteq> line" by auto
    with Cons.prems have "line \<in> set rest" by simp
    from Cons.IH [OF this, of st1] b None show ?thesis by simp
  qed
qed

lemma write_concatfile_bad:
  assumes "line \<in> set (lines_of f)" and "bad_line lib line"
  shows "\<exists>e \<in> record_errors. fst (write_concatfile lib f) = Some e"
  using for_lines_bad [OF assms, of "\<lparr>old_step = PInt 0, first = True, last_line = None, of_text = []\<rparr>"]
  by (auto simp: write_concatfile_def split: prod.splits option.splits)

subsection \<open>Lines that hold the same frame\<close>

lemma frame_fields_SomeD:
  assumes "frame_fields lib line = Some (x, y)"
  obtains kvs where "loads lib (strip line) = Some (PDict kvs)"
    and "map_of kvs ''path'' = x" and "map_of kvs ''step'' = y"
proof (cases "loads lib (strip line)")
  case None
  with assms show ?thesis by (simp add: frame_fields_def)
next
  case (Some v)
  with assms that show ?thesis by (cases v) (simp_all add: frame_fields_def)
qed

lemma loop_body_same:
  assumes "same_frame lib line1 line2"
  shows "loop_body lib line1 st = loop_body lib line2 st"
proof -
  from assms obtain x y where f: "frame_fields lib line1 = Some (x, y)"
    "frame_fields lib line2 = Some (x, y)"
    by (cases "frame_fields lib line1") (auto simp: same_frame_def)
  from f(1) obtain a where a: "loads lib (strip line1) = Some (PDict a)"
    "map_of a ''path'' = x" "map_of a ''step'' = y" by (rule frame_fields_SomeD)
  from f(2) obtain b where b: "loads lib (strip line2) = Some (PDict b)"
    "map_of b ''path'' = x" "map_of b ''step'' = y" by (rule frame_fields_SomeD)
  have g: "getitem (PDict a) ''path'' = getitem (PDict b) ''path''"
    "getitem (PDict a) ''step'' = getitem (PDict b) ''step''"
    using a b by simp_all
  have wd: "write_duration lib (PDict a) st = write_duration lib (PDict b) st"
    unfolding write_duration_def g ..
  show ?thesis
    unfolding loop_body_def a(1) b(1) option.case wd g ..
qed

lemma for_lines_same:
  assumes "list_all2 (same_frame lib) ls1 ls2"
  shows "for_lines lib ls1 st = for_lines lib ls2 st"
  using assms
proof (induction ls1 ls2 arbitrary: st rule: list_all2_induct)
  case Nil
  show ?case by simp
next
  case (Cons l1 ls1 l2 ls2)
  from Cons.hyps(1) have b: "loop_body lib l1 st = loop_body lib l2 st"
    by (rule loop_body_same)
  obtain r st' where r: "loop_body lib l2 st = (r, st')" by (cases "loop_body lib l2 st")
  show ?case
  proof (cases r)
    case None
    with b r Cons.IH [of st'] show ?thesis by simp
  next
    case (Some e)
    with b r show ?thesis by simp
  qed
qed

section \<open>The claims\<close>



text \<open>
  C2. For a non-empty frame log, the manifest ends with the last file reference of the
  main pass, the line \<^verbatim>\<open>duration 10\<close>, and that same file reference again; it is the
  file reference of the last frame.
\<close>

theorem manifest_trailer:
  assumes "files w (joinpath folder ''frames.json'') = Some f"
    and "read_frames lib f = map Some frs"
    and "frs \<noteq> []"
  shows "files (snd (main lib folder w)) (joinpath folder ''concatfile'')
           = Some (concat (map render (butlast (main_pass frs)))
                   @ render (last (main_pass frs))
                   @ ''duration 10'' @ [nl]
                   @ render (last (main_pass frs)))
       \<and> last (main_pass frs) = File (fst (last frs))"
proof -
  from main_pass_last [OF assms(3)]
  have ne: "main_pass frs \<noteq> []" and l: "last (main_pass frs) = File (fst (last frs))"
    by simp_all
  define b where "b = butlast (main_pass frs)"
  define x where "x = last (main_pass frs)"
  have mp: "main_pass frs = b @ [x]" using ne by (simp add: b_def x_def)
  have x: "x = File (fst (last frs))" using l by (simp add: x_def)
  have "write_concatfile lib f
          = (None, concat (map render b) @ render x @ ''duration 10'' @ [nl] @ render x)"
    unfolding write_concatfile_frames [OF assms(2,3)] mp x
    by (simp add: str_int_10)
  with main_manifest [OF assms(1), of lib] l
  show ?thesis unfolding b_def [symmetric] x_def [symmetric] by simp
qed

theorem manifest_trailer_witness:
  "files (world_with compact_log) (joinpath [''run''] ''frames.json'') = Some compact_log
   \<and> read_frames example_lib compact_log = map Some example_frames
   \<and> example_frames \<noteq> []
   \<and> files (snd (main example_lib [''run''] (world_with compact_log)))
         (joinpath [''run''] ''concatfile'')
       = Some (concat (map render (butlast (main_pass example_frames)))
               @ render (File ''f2.png'') @ ''duration 10'' @ [nl] @ render (File ''f2.png''))"
proof -
  have h1: "files (world_with compact_log) (joinpath [''run''] ''frames.json'')
              = Some compact_log"
    by (simp add: world_with_def joinpath_def)
  have h2: "read_frames example_lib compact_log = map Some example_frames"
    by code_simp
  have h3: "example_frames \<noteq> []"
    by (simp add: example_frames_def)
  have l: "fst (last example_frames) = ''f2.png''"
    by (simp add: example_frames_def)
  from manifest_trailer [OF h1 h2 h3] l
  have "files (snd (main example_lib [''run''] (world_with compact_log)))
          (joinpath [''run''] ''concatfile'')
        = Some (concat (map render (butlast (main_pass example_frames)))
               @ render (File ''f2.png'') @ ''duration 10'' @ [nl] @ render (File ''f2.png''))"
    by simp
  with h1 h2 h3 show ?thesis by blast
qed

text \<open>
  C3. Whatever the frame log holds, the manifest never has a duration before the first
  file reference: it is empty (nothing was written before the run failed) or it starts
  with the file reference of the first frame.
\<close>

theorem manifest_starts_with_file:
  assumes "files w (joinpath folder ''frames.json'') = Some f"
  shows "(case files (snd (main lib folder w)) (joinpath folder ''concatfile'') of
            None \<Rightarrow> False
          | Some text \<Rightarrow> text = [] \<or> prefix (''file '' @ [sq]) text)"
  using main_manifest [OF assms, of lib] write_concatfile_starts [of lib f]
  by (simp add: file_start_def)

theorem manifest_starts_with_file_witness:
  "files (world_with truncated_log) (joinpath [''run''] ''frames.json'') = Some truncated_log
   \<and> (case files (snd (main example_lib [''run''] (world_with truncated_log)))
              (joinpath [''run''] ''concatfile'') of
         None \<Rightarrow> False
       | Some text \<Rightarrow> text = [] \<or> prefix (''file '' @ [sq]) text)"
proof -
  have h1: "files (world_with truncated_log) (joinpath [''run''] ''frames.json'')
              = Some truncated_log"
    by (simp add: world_with_def joinpath_def)
  from h1 manifest_starts_with_file [OF h1, of example_lib] show ?thesis by (rule conjI)
qed

text \<open>
  C4. For the frames \<^verbatim>\<open>f0.png\<close> at step 0, \<^verbatim>\<open>f1.png\<close> at step 5 and \<^verbatim>\<open>f2.png\<close>
  at step 12 the manifest is exactly the seven lines of the specification's example.
\<close>

theorem manifest_example:
  assumes "files w (joinpath folder ''frames.json'') = Some f"
    and "read_frames lib f = map Some [(''f0.png'', 0), (''f1.png'', 5), (''f2.png'', 12)]"
  shows "files (snd (main lib folder w)) (joinpath folder ''concatfile'')
           = Some (''file '' @ [sq] @ ''f0.png'' @ [sq, nl]
                 @ ''duration 5'' @ [nl]
                 @ ''file '' @ [sq] @ ''f1.png'' @ [sq, nl]
                 @ ''duration 7'' @ [nl]
                 @ ''file '' @ [sq] @ ''f2.png'' @ [sq, nl]
                 @ ''duration 10'' @ [nl]
                 @ ''file '' @ [sq] @ ''f2.png'' @ [sq, nl])"
proof -
  have d: "str_int 5 = ''5''" "str_int 7 = ''7''" "str_int 10 = ''10''"
    by (simp_all add: str_int_def str_nat.simps)
  from main_manifest [OF assms(1), of lib] write_concatfile_frames [OF assms(2)]
  show ?thesis by (simp add: d)
qed

theorem manifest_example_witness:
  "files (world_with example_log) (joinpath [''run''] ''frames.json'') = Some example_log
   \<and> read_frames example_lib example_log
       = map Some [(''f0.png'', 0), (''f1.png'', 5), (''f2.png'', 12)]
   \<and> files (snd (main example_lib [''run''] (world_with example_log)))
         (joinpath [''run''] ''concatfile'')
       = Some (''file '' @ [sq] @ ''f0.png'' @ [sq, nl]
             @ ''duration 5'' @ [nl]
             @ ''file '' @ [sq] @ ''f1.png'' @ [sq, nl]
             @ ''duration 7'' @ [nl]
             @ ''file '' @ [sq] @ ''f2.png'' @ [sq, nl]
             @ ''duration 10'' @ [nl]
             @ ''file '' @ [sq] @ ''f2.png'' @ [sq, nl])"
proof -
  have h1: "files (world_with example_log) (joinpath [''run''] ''frames.json'')
              = Some example_log"
    by (simp add: world_with_def joinpath_def)
  have h2: "read_frames example_lib example_log
              = map Some [(''f0.png'', 0), (''f1.png'', 5), (''f2.png'', 12)]"
    by code_simp
  from h1 h2 manifest_example [OF h1 h2] show ?thesis by blast
qed

text \<open>
  C5, as stated: on a frame log with no record the manifest holds a line
  \<^verbatim>\<open>duration 10\<close> and a file reference taken from the unset last entry. It does not:
  on the empty log the trailing write raises TypeError before anything is written, and
  the manifest is left empty.
\<close>

theorem empty_log_counterexample:
  "fst (main example_lib [''run''] (world_with [])) = Some TypeError
   \<and> files (snd (main example_lib [''run''] (world_with []))) [''run'', ''concatfile'']
       = Some []"
  by (simp add: main_def write_concatfile_def world_with_def joinpath_def)

text \<open>
  C5, amended: on a frame log with no line the run fails with TypeError at the trailing
  write, since the last entry is still \<^verbatim>\<open>None\<close>; the manifest is created and left
  empty, nothing else changes, and ffmpeg is not started.
\<close>

theorem empty_log_type_error:
  assumes "files w (joinpath folder ''frames.json'') = Some f"
    and "lines_of f = []"
  shows "main lib folder w
           = (Some TypeError, w\<lparr>files := (files w)(joinpath folder ''concatfile'' \<mapsto> [])\<rparr>)"
  using assms by (simp add: main_def write_concatfile_def)

theorem empty_log_type_error_witness:
  "files (world_with []) (joinpath [''run''] ''frames.json'') = Some []
   \<and> lines_of [] = []
   \<and> main failing_lib [''run''] (world_with [])
       = (Some TypeError,
          (world_with [])\<lparr>files := (files (world_with []))(joinpath [''run''] ''concatfile'' \<mapsto> [])\<rparr>)"
proof -
  have h1: "files (world_with []) (joinpath [''run''] ''frames.json'') = Some []"
    by (simp add: world_with_def joinpath_def)
  have h2: "lines_of [] = []"
    by simp
  from h1 h2 empty_log_type_error [OF h1 h2, of failing_lib] show ?thesis by blast
qed

text \<open>
  C6, as stated: the entry point takes the working directory as an argument and uses
  the argument when one is given. It does not: started with the argument \<^verbatim>\<open>run\<close>,
  where a frame log is, the script still looks in \<^verbatim>\<open>../output\<close> and fails, while
  \<^verbatim>\<open>main\<close> on \<^verbatim>\<open>run\<close> succeeds.
\<close>

theorem script_argument_counterexample:
  "script [''make_video.py'', ''run''] example_lib (world_with example_log)
     = (Some FileNotFoundError, world_with example_log)
   \<and> fst (main example_lib [''run''] (world_with example_log)) = None"
proof -
  have h1: "files (world_with example_log) (joinpath [''run''] ''frames.json'')
              = Some example_log"
    by (simp add: world_with_def joinpath_def)
  have h2: "fst (write_concatfile example_lib example_log) = None"
    by code_simp
  have h3: "call example_lib (cmd [''run''])
              ((files (world_with example_log))
                 (joinpath [''run''] ''concatfile'' \<mapsto> snd (write_concatfile example_lib example_log)))
            = Inr 0"
    by (simp add: example_lib_def)
  have "script [''make_video.py'', ''run''] example_lib (world_with example_log)
          = (Some FileNotFoundError, world_with example_log)"
    by (simp add: script_def main_def world_with_def joinpath_def)
  with main_encoder [OF h1 h2 h3] show ?thesis by simp
qed

text \<open>
  C6, amended: \<^verbatim>\<open>main\<close> takes one argument, the working directory, and works in it:
  without a frame log there it fails and changes nothing; with one, the only file it
  writes is the manifest of that directory and the only process it starts is ffmpeg on
  that directory. The script's entry point always calls \<^verbatim>\<open>main\<close> with the fixed
  relative path \<^verbatim>\<open>../output\<close>, whatever the command line holds.
\<close>

theorem script_fixed_folder:
  "script argv lib w = main lib [''..'', ''output''] w
   \<and> (case files w (joinpath folder ''frames.json'') of
         None \<Rightarrow> main lib folder w = (Some FileNotFoundError, w)
       | Some f \<Rightarrow>
           files (snd (main lib folder w))
             = (files w)(joinpath folder ''concatfile'' \<mapsto> snd (write_concatfile lib f))
         \<and> set (calls (snd (main lib folder w))) \<subseteq> insert (cmd folder) (set (calls w)))"
  by (auto simp: script_def main_def Let_def split: option.splits prod.splits sum.splits)

theorem script_fixed_folder_witness:
  "script [''make_video.py'', ''run''] example_lib (world_with example_log)
     = main example_lib [''..'', ''output''] (world_with example_log)
   \<and> files (snd (main example_lib [''run''] (world_with example_log)))
       = (files (world_with example_log))
           (joinpath [''run''] ''concatfile'' \<mapsto> snd (write_concatfile example_lib example_log))
   \<and> set (calls (snd (main example_lib [''run''] (world_with example_log))))
       \<subseteq> insert (cmd [''run'']) (set (calls (world_with example_log)))"
proof -
  have h1: "files (world_with example_log) (joinpath [''run''] ''frames.json'')
              = Some example_log"
    by (simp add: world_with_def joinpath_def)
  from script_fixed_folder
         [of "[''make_video.py'', ''run'']" example_lib "world_with example_log" "[''run'']"]
  show ?thesis by (simp only: h1 option.case)
qed

text \<open>
  C7. When a line of the frame log is not well-formed, or holds a record without
  \<^verbatim>\<open>path\<close> or without \<^verbatim>\<open>step\<close>, the run fails with an error of reading a record (a
  JSON decoding error, a missing key, or a type error on a value that is not a frame
  record), and ffmpeg is never started.
\<close>

theorem bad_line_fails:
  assumes "files w (joinpath folder ''frames.json'') = Some f"
    and "line \<in> set (lines_of f)"
    and "bad_line lib line"
  shows "fst (main lib folder w)
           \<in> {Some JSONDecodeError, Some (KeyError ''path''), Some (KeyError ''step''), Some TypeError}
       \<and> calls (snd (main lib folder w)) = calls w"
proof -
  from write_concatfile_bad [OF assms(2,3)] obtain e
    where e: "e \<in> record_errors" "fst (write_concatfile lib f) = Some e" by blast
  from main_failed_manifest [OF assms(1) e(2)] e(1) show ?thesis
    by (auto simp: record_errors_def)
qed

theorem bad_line_fails_witness:
  \<open>files (world_with truncated_log) (joinpath [''run''] ''frames.json'') = Some truncated_log
   \<and> ''{"path": "f3.png"}'' @ [nl] \<in> set (lines_of truncated_log)
   \<and> bad_line example_lib (''{"path": "f3.png"}'' @ [nl])
   \<and> fst (main example_lib [''run''] (world_with truncated_log))
       \<in> {Some JSONDecodeError, Some (KeyError ''path''), Some (KeyError ''step''), Some TypeError}
   \<and> calls (snd (main example_lib [''run''] (world_with truncated_log)))
       = calls (world_with truncated_log)\<close>
proof -
  have h1: "files (world_with truncated_log) (joinpath [''run''] ''frames.json'')
              = Some truncated_log"
    by (simp add: world_with_def joinpath_def)
  have h2: \<open>''{"path": "f3.png"}'' @ [nl] \<in> set (lines_of truncated_log)\<close>
    by code_simp
  have h3: \<open>bad_line example_lib (''{"path": "f3.png"}'' @ [nl])\<close>
    by code_simp
  from h1 h2 h3 bad_line_fails [OF h1 h2 h3] show ?thesis by blast
qed

text \<open>
  C8. In a run that reaches ffmpeg, ffmpeg is started once; when it exits with a status
  other than 0 the run fails with AssertionError, and the run returns normally exactly
  when the status is 0.
\<close>

theorem encoder_status_asserted:
  assumes "files w (joinpath folder ''frames.json'') = Some f"
    and "fst (write_concatfile lib f) = None"
    and "call lib (cmd folder)
           ((files w)(joinpath folder ''concatfile'' \<mapsto> snd (write_concatfile lib f))) = Inr res"
  shows "(res \<noteq> 0 \<longrightarrow> fst (main lib folder w) = Some AssertionError)
       \<and> (fst (main lib folder w) = None \<longleftrightarrow> res = 0)
       \<and> calls (snd (main lib folder w)) = calls w @ [cmd folder]"
  using main_encoder [OF assms] by simp

theorem encoder_status_asserted_witness:
  "files (world_with example_log) (joinpath [''run''] ''frames.json'') = Some example_log
   \<and> fst (write_concatfile failing_lib example_log) = None
   \<and> call failing_lib (cmd [''run''])
         ((files (world_with example_log))
            (joinpath [''run''] ''concatfile'' \<mapsto> snd (write_concatfile failing_lib example_log)))
       = Inr 1
   \<and> fst (main failing_lib [''run''] (world_with example_log)) = Some AssertionError
   \<and> calls (snd (main failing_lib [''run''] (world_with example_log)))
       = calls (world_with example_log) @ [cmd [''run'']]"
proof -
  have h1: "files (world_with example_log) (joinpath [''run''] ''frames.json'')
              = Some example_log"
    by (simp add: world_with_def joinpath_def)
  have h2: "fst (write_concatfile failing_lib example_log) = None"
    by code_simp
  have h3: "call failing_lib (cmd [''run''])
              ((files (world_with example_log))
                 (joinpath [''run''] ''concatfile'' \<mapsto> snd (write_concatfile failing_lib example_log)))
            = Inr 1"
    by (simp add: failing_lib_def)
  from encoder_status_asserted [OF h1 h2 h3]
  have "fst (main failing_lib [''run''] (world_with example_log)) = Some AssertionError"
    and "calls (snd (main failing_lib [''run''] (world_with example_log)))
           = calls (world_with example_log) @ [cmd [''run'']]"
    by simp_all
  with h1 h2 h3 show ?thesis by blast
qed

text \<open>
  C9. When the working directory holds no frame log, the run fails with
  FileNotFoundError and leaves the world as it was: no manifest is created or written
  and ffmpeg is not started.
\<close>

theorem missing_frame_log:
  assumes "files w (joinpath folder ''frames.json'') = None"
  shows "main lib folder w = (Some FileNotFoundError, w)"
  using assms by (simp add: main_def)

theorem missing_frame_log_witness:
  "files (world_with example_log) (joinpath [''elsewhere''] ''frames.json'') = None
   \<and> main example_lib [''elsewhere''] (world_with example_log)
       = (Some FileNotFoundError, world_with example_log)"
proof -
  have h1: "files (world_with example_log) (joinpath [''elsewhere''] ''frames.json'') = None"
    by (simp add: world_with_def joinpath_def)
  from h1 missing_frame_log [OF h1, of example_lib] show ?thesis by (rule conjI)
qed

text \<open>
  C10. The manifest depends on the \<^verbatim>\<open>path\<close> and \<^verbatim>\<open>step\<close> entries of the records
  only: two frame logs whose lines hold, one by one, the same frame leave the same
  manifest, whatever other fields the records have and however they are written.
\<close>

theorem manifest_depends_on_path_and_step:
  assumes "files w1 (joinpath folder ''frames.json'') = Some f1"
    and "files w2 (joinpath folder ''frames.json'') = Some f2"
    and "list_all2 (same_frame lib) (lines_of f1) (lines_of f2)"
  shows "files (snd (main lib folder w1)) (joinpath folder ''concatfile'')
           = files (snd (main lib folder w2)) (joinpath folder ''concatfile'')"
  using main_manifest [OF assms(1), of lib] main_manifest [OF assms(2), of lib]
    for_lines_same [OF assms(3)]
  by (simp add: write_concatfile_def)

theorem manifest_depends_on_path_and_step_witness:
  "files (world_with example_log) (joinpath [''run''] ''frames.json'') = Some example_log
   \<and> files (world_with compact_log) (joinpath [''run''] ''frames.json'') = Some compact_log
   \<and> list_all2 (same_frame example_lib) (lines_of example_log) (lines_of compact_log)
   \<and> example_log \<noteq> compact_log
   \<and> files (snd (main example_lib [''run''] (world_with example_log)))
         (joinpath [''run''] ''concatfile'')
       = files (snd (main example_lib [''run''] (world_with compact_log)))
           (joinpath [''run''] ''concatfile'')"
proof -
  have h1: "files (world_with example_log) (joinpath [''run''] ''frames.json'')
              = Some example_log"
    by (simp add: world_with_def joinpath_def)
  have h2: "files (world_with compact_log) (joinpath [''run''] ''frames.json'')
              = Some compact_log"
    by (simp add: world_with_def joinpath_def)
  have h3: "list_all2 (same_frame example_lib) (lines_of example_log) (lines_of compact_log)"
    by code_simp
  have h4: "example_log \<noteq> compact_log"
    by code_simp
  from h1 h2 h3 h4 manifest_depends_on_path_and_step [OF h1 h2 h3] show ?thesis by blast
qed

end
